theory Spec2Isabelle
  imports Complex_Main
begin

section \<open>Python values used by the notebook\<close>

text \<open>
  The notebook \<^verbatim>\<open>built-up-model-training.ipynb\<close> holds two independent pieces of
  code: \<^verbatim>\<open>cut\<close>, which cuts a Shapely \<^verbatim>\<open>LineString\<close> every \<^verbatim>\<open>distance\<close>
  units, and \<^verbatim>\<open>parse_subtree\<close> / \<^verbatim>\<open>parse_one_tree\<close> / \<^verbatim>\<open>parse_trees\<close>, which
  print a LightGBM model as JavaScript. Every exception the code can raise is a value of
  \<open>error\<close>; a function that can raise returns \<open>error + 'a\<close>.
\<close>

datatype error =
    IndexError      \<comment> \<open>list index out of range\<close>
  | OverflowError   \<comment> \<open>\<^verbatim>\<open>round\<close>: rounded value too large to represent\<close>
  | ValueError      \<comment> \<open>\<^verbatim>\<open>LineString\<close> built from a single coordinate\<close>

subsection \<open>Lists and strings\<close>

text \<open>
  \<^verbatim>\<open>xs[i]\<close> on a Python list: positions \<open>0 .. len - 1\<close>, the negative indices
  \<open>- len .. - 1\<close> counting from the end, \<^verbatim>\<open>IndexError\<close> for every other index.
\<close>

definition list_index :: "'a list \<Rightarrow> int \<Rightarrow> error + 'a" where
  "list_index xs i =
     (if 0 \<le> i \<and> i < int (length xs) then Inr (xs ! nat i)
      else if - int (length xs) \<le> i \<and> i < 0 then Inr (xs ! nat (int (length xs) + i))
      else Inl IndexError)"

text \<open>\<^verbatim>\<open>sep.join(parts)\<close>.\<close>

fun join :: "string \<Rightarrow> string list \<Rightarrow> string" where
  "join sep [] = []"
| "join sep [x] = x"
| "join sep (x # y # zs) = x @ sep @ join sep (y # zs)"

text \<open>\<^verbatim>\<open>str(n)\<close> for an integer: its decimal digits, with a sign when negative.\<close>

definition digit_char :: "int \<Rightarrow> char" where
  "digit_char d = ''0123456789'' ! nat d"

function str_digits :: "int \<Rightarrow> string" where
  "str_digits n =
     (if n < 10 then [digit_char n] else str_digits (n div 10) @ [digit_char (n mod 10)])"
  by pat_completeness auto
termination
  by (relation "measure nat") (auto intro!: int_div_less_self)

declare str_digits.simps [simp del]

definition str_int :: "int \<Rightarrow> string" where
  "str_int i = (if i < 0 then ''-'' @ str_digits (- i) else str_digits i)"

subsection \<open>Floats\<close>

text \<open>
  A finite Python float is an IEEE 754 double. It is modelled by its sign bit and the
  exact rational value of its magnitude, so that \<open>-0.0\<close> and \<open>0.0\<close> differ as they do in
  Python. Infinities and NaN are outside the model.

  \<open>nearest_double q\<close> is the double nearest to a non-negative rational \<open>q\<close> (ties to the
  even mantissa, subnormals below \<open>2 powr -1022\<close>): what reading a decimal literal or
  \<^verbatim>\<open>float(...)\<close> of a decimal string computes. \<open>ilog b q\<close> is the integer \<open>e\<close> with
  \<open>b ^ e \<le> q < b ^ (e + 1)\<close> for \<open>q > 0\<close>.
\<close>

datatype pyfloat = PyFloat (negative: bool) (magnitude: rat)

definition pow_int :: "rat \<Rightarrow> int \<Rightarrow> rat" where
  "pow_int b e = (if 0 \<le> e then b ^ nat e else 1 / b ^ nat (- e))"

function digit_count :: "int \<Rightarrow> int \<Rightarrow> nat" where
  "digit_count b n = (if n \<le> 0 \<or> b < 2 then 0 else Suc (digit_count b (n div b)))"
  by pat_completeness auto
termination
  by (relation "measure (\<lambda>(b, n). nat n)") (auto intro!: int_div_less_self)

declare digit_count.simps [simp del]

definition ilog :: "int \<Rightarrow> rat \<Rightarrow> int" where
  "ilog b q =
     (let (n, d) = quotient_of q;
          e = int (digit_count b n) - int (digit_count b d)
      in if pow_int (of_int b) e \<le> q then e else e - 1)"

definition round_half_even :: "rat \<Rightarrow> int" where
  "round_half_even q =
     (let f = \<lfloor>q\<rfloor>; r = q - of_int f
      in if r < 1 / 2 then f else if 1 / 2 < r then f + 1 else if even f then f else f + 1)"

definition nearest_double :: "rat \<Rightarrow> rat" where
  "nearest_double q =
     (if q = 0 then 0
      else let e = max (ilog 2 q) (- 1022); ulp = pow_int 2 (e - 52)
           in of_int (round_half_even (q / ulp)) * ulp)"

definition float_lit :: "rat \<Rightarrow> pyfloat" where
  "float_lit q = PyFloat (q < 0) (nearest_double \<bar>q\<bar>)"

text \<open>
  \<^verbatim>\<open>round(x, ndigits)\<close> on a float (CPython's \<^verbatim>\<open>float.__round__\<close>): the exact value
  of \<open>x\<close> is rounded to the nearest multiple of \<open>10 ^ (- ndigits)\<close>, a tie going to the
  even multiple, and that decimal is read back as a double; the sign is kept, so a small
  negative score rounds to \<open>-0.0\<close>. More than 323 digits leave \<open>x\<close> as it is, fewer than
  \<open>-308\<close> give zero. Reading back overflows when the nearest double would be
  \<open>2 ^ 1024\<close> or more, and \<^verbatim>\<open>round\<close> then raises \<^verbatim>\<open>OverflowError\<close>.
\<close>

definition py_round :: "pyfloat \<Rightarrow> int \<Rightarrow> error + pyfloat" where
  "py_round x ndigits =
     (if 323 < ndigits then Inr x
      else if ndigits < - 308 then Inr (PyFloat (negative x) 0)
      else let r = nearest_double
                     (of_int (round_half_even (magnitude x * pow_int 10 ndigits))
                        / pow_int 10 ndigits)
           in if 1024 \<le> ilog 2 r then Inl OverflowError else Inr (PyFloat (negative x) r))"

text \<open>
  \<^verbatim>\<open>f'{x}'\<close> for a float is \<^verbatim>\<open>repr(x)\<close>: the shortest decimal digit string that
  reads back as \<open>x\<close> (if two of that length do, the closer to \<open>x\<close>, and of two equally
  close the one with the even last digit), printed in
  positional notation with at least one digit after the point, or in exponent notation
  when the decimal point position is at most \<open>-4\<close> or above \<open>16\<close>.
  \<open>repr_try x p n\<close> looks for an \<open>n\<close>-digit decimal that reads back as \<open>x\<close>, where
  \<open>p = ilog 10 x\<close>; \<open>shortest_digits\<close> tries 1 to 17 digits in turn and returns the
  digits as an integer \<open>k\<close> and an exponent \<open>ex\<close> with the decimal being \<open>k * 10 ^ ex\<close>.
\<close>

definition repr_try :: "rat \<Rightarrow> int \<Rightarrow> int \<Rightarrow> (int \<times> int) option" where
  "repr_try x p n =
     (let ex = p - n + 1; u = pow_int 10 ex; lo = \<lfloor>x / u\<rfloor>; hi = lo + 1;
          okl = (nearest_double (of_int lo * u) = x);
          okh = (nearest_double (of_int hi * u) = x)
      in if okl \<and> okh
         then (if x - of_int lo * u < of_int hi * u - x then Some (lo, ex)
               else if of_int hi * u - x < x - of_int lo * u then Some (hi, ex)
               else if even lo then Some (lo, ex) else Some (hi, ex))
         else if okl then Some (lo, ex)
         else if okh then Some (hi, ex)
         else None)"

fun shortest_in :: "rat \<Rightarrow> int \<Rightarrow> int list \<Rightarrow> int \<times> int" where
  "shortest_in x p [] = (round_half_even (x / pow_int 10 (p - 16)), p - 16)"
| "shortest_in x p (n # ns) =
     (case repr_try x p n of Some c \<Rightarrow> c | None \<Rightarrow> shortest_in x p ns)"

function strip_zeros :: "int \<Rightarrow> int \<Rightarrow> int \<times> int" where
  "strip_zeros k ex =
     (if 0 < k \<and> k mod 10 = 0 then strip_zeros (k div 10) (ex + 1) else (k, ex))"
  by pat_completeness auto
termination
  by (relation "measure (\<lambda>(k, ex). nat k)") (auto intro!: int_div_less_self)

declare strip_zeros.simps [simp del]

definition shortest_digits :: "rat \<Rightarrow> int \<times> int" where
  "shortest_digits x =
     (if x = 0 then (0, 0)
      else let (k, ex) = shortest_in x (ilog 10 x) [1..17] in strip_zeros k ex)"

definition float_repr :: "pyfloat \<Rightarrow> string" where
  "float_repr x =
     (let (k, ex) = shortest_digits (magnitude x);
          ds = str_digits k; nd = int (length ds); decpt = nd + ex;
          body =
            (if decpt \<le> - 4 \<or> 16 < decpt then
               take 1 ds @ (if 1 < nd then ''.'' @ drop 1 ds else [])
               @ ''e'' @ (if decpt - 1 < 0 then ''-'' else ''+'')
               @ (if \<bar>decpt - 1\<bar> < 10 then ''0'' else []) @ str_digits \<bar>decpt - 1\<bar>
             else if decpt \<le> 0 then ''0.'' @ replicate (nat (- decpt)) (CHR ''0'') @ ds
             else if nd \<le> decpt then ds @ replicate (nat (decpt - nd)) (CHR ''0'') @ ''.0''
             else take (nat decpt) ds @ ''.'' @ drop (nat decpt) ds)
      in (if negative x then ''-'' else []) @ body)"

section \<open>Parsing the LightGBM model\<close>

text \<open>
  A node of \<^verbatim>\<open>dump_model()['tree_info'][k]['tree_structure']\<close> is a dictionary: a leaf
  has the keys \<^verbatim>\<open>leaf_index\<close> and \<^verbatim>\<open>leaf_value\<close>, a split has \<^verbatim>\<open>split_feature\<close>,
  \<^verbatim>\<open>threshold\<close>, \<^verbatim>\<open>decision_type\<close>, \<^verbatim>\<open>left_child\<close> and \<^verbatim>\<open>right_child\<close>.
  \<^verbatim>\<open>parse_subtree\<close> tells them apart by \<^verbatim>\<open>'leaf_index' in node\<close>.
\<close>

datatype node =
    Leaf (leaf_index: int) (leaf_value: pyfloat)
  | Split (split_feature: int) (threshold: pyfloat) (decision_type: string)
      (left_child: node) (right_child: node)

record tree =
  tree_structure :: node

definition PRECISION_SCORES :: "int option" where
  "PRECISION_SCORES = Some 4"

definition PRECISION_THRESHOLD :: "int option" where
  "PRECISION_THRESHOLD = None"

definition BANDS :: "string list" where
  "BANDS = [''B01'', ''B02'', ''B03'', ''B04'', ''B05'', ''B06'', ''B07'', ''B08'', ''B09'',
            ''B11'', ''B12'']"

text \<open>
  The notebook sets \<^verbatim>\<open>MODEL_INPUTS = []\<close> with the comment \<^verbatim>\<open>#specify your model inputs\<close>:
  the list of feature names is the user's to fill in, so it is a parameter here, and
  \<^verbatim>\<open>MODEL_INPUTS_STR\<close> is computed from it.
\<close>

definition MODEL_INPUTS_STR :: "string list \<Rightarrow> string" where
  "MODEL_INPUTS_STR MODEL_INPUTS = join '', '' MODEL_INPUTS"

text \<open>\<^verbatim>\<open>if PRECISION is not None: x = round(x, PRECISION)\<close>.\<close>

definition round_to :: "int option \<Rightarrow> pyfloat \<Rightarrow> error + pyfloat" where
  "round_to precision x = (case precision of None \<Rightarrow> Inr x | Some n \<Rightarrow> py_round x n)"

text \<open>
  \<^verbatim>\<open>parse_subtree(node, model_inputs, brackets=True)\<close>. The feature name is looked up
  before the children are parsed, and both recursive calls use the default
  \<^verbatim>\<open>brackets=True\<close>.
\<close>

fun parse_subtree :: "node \<Rightarrow> string list \<Rightarrow> bool \<Rightarrow> error + string" where
  "parse_subtree (Leaf li lv) model_inputs brackets =
     (case round_to PRECISION_SCORES lv of
        Inl e \<Rightarrow> Inl e
      | Inr score \<Rightarrow> Inr (float_repr score))"
| "parse_subtree (Split sf th dt l r) model_inputs brackets =
     (case list_index model_inputs sf of
        Inl e \<Rightarrow> Inl e
      | Inr feature \<Rightarrow>
          (case round_to PRECISION_THRESHOLD th of
             Inl e \<Rightarrow> Inl e
           | Inr thr \<Rightarrow>
               (let condition = feature @ dt @ float_repr thr in
                case parse_subtree l model_inputs True of
                  Inl e \<Rightarrow> Inl e
                | Inr left \<Rightarrow>
                    (case parse_subtree r model_inputs True of
                       Inl e \<Rightarrow> Inl e
                     | Inr right \<Rightarrow>
                         (let result = ''('' @ condition @ '')?'' @ left @ '':'' @ right
                          in Inr (if brackets then ''('' @ result @ '')'' else result))))))"

definition parse_one_tree :: "node \<Rightarrow> nat \<Rightarrow> string \<Rightarrow> string list \<Rightarrow> error + string" where
  "parse_one_tree root' index model_input_str model_inputs =
     (case parse_subtree root' model_inputs False of
        Inl e \<Rightarrow> Inl e
      | Inr body \<Rightarrow>
          Inr (''\<newline>function pt'' @ str_int (int index) @ ''('' @ model_input_str @ '') { \<newline>''
               @ ''   return '' @ body @ '';\<newline>''
               @ ''}\<newline>''))"

text \<open>
  The list comprehension \<^verbatim>\<open>[parse_one_tree(tree['tree_structure'], idx, ...) for idx, tree in enumerate(trees)]\<close>,
  from index \<open>idx\<close> on; the first tree that raises ends it.
\<close>

fun tree_functions_from :: "nat \<Rightarrow> tree list \<Rightarrow> string list \<Rightarrow> error + string list" where
  "tree_functions_from idx [] MODEL_INPUTS = Inr []"
| "tree_functions_from idx (t # ts) MODEL_INPUTS =
     (case parse_one_tree (tree_structure t) idx (MODEL_INPUTS_STR MODEL_INPUTS) MODEL_INPUTS of
        Inl e \<Rightarrow> Inl e
      | Inr f \<Rightarrow>
          (case tree_functions_from (Suc idx) ts MODEL_INPUTS of
             Inl e \<Rightarrow> Inl e
           | Inr fs \<Rightarrow> Inr (f # fs)))"

definition function_sum :: "tree list \<Rightarrow> string list \<Rightarrow> string" where
  "function_sum trees MODEL_INPUTS =
     join ''+'' (map (\<lambda>i. ''pt'' @ str_int (int i) @ ''('' @ MODEL_INPUTS_STR MODEL_INPUTS @ '')'')
                   [0..<length trees])"

text \<open>The fixed text of the evalscript before the tree functions.\<close>

definition evalscript_head :: string where
  "evalscript_head =
     ''\<newline>//VERSION=3\<newline>''
     @ ''function setup() {\<newline>''
     @ ''    return {\<newline>''
     @ ''        input: [{\<newline>''
     @ ''            bands: ['' @ join '','' (map (\<lambda>band. ''\"'' @ band @ ''\"'') BANDS) @ ''],\<newline>''
     @ ''            units: \"DN\"\<newline>''
     @ ''        }],\<newline>''
     @ ''        output: {\<newline>''
     @ ''            id:\"default\",\<newline>''
     @ ''            bands: 4,\<newline>''
     @ ''            sampleType: \"AUTO\"\<newline>''
     @ ''        }\<newline>''
     @ ''    }\<newline>''
     @ ''}\<newline>''
     @ ''function evaluatePixel(sample) {\<newline>''
     @ ''    // define the indices you need\<newline>''
     @ ''    let NDVI = (sample.B08 - sample.B04)/(sample.B08 + sample.B04)\<newline>''
     @ ''    let NDVI_RE1 = (sample.B08 - sample.B05)/(sample.B08 + sample.B05)\<newline>''
     @ ''    \<newline>''
     @ ''    ...\<newline>''
     @ ''    \<newline>''
     @ ''    let STI = sample.B11 / sample.B12\<newline>''
     @ ''    \<newline>''
     @ ''    // call the model. Keep in mind that DN have to be divided by 1.e4 to get the same values as the models so when training\<newline>''
     @ ''    let BLDG_PROBA = predict(sample.B01/1.e4, sample.B02/1.e4,..., STI)\<newline>''
     @ ''    \<newline>''
     @ ''    // make a mask of predictions\<newline>''
     @ ''    let BLDG_PROBA_080 = (BLDG_PROBA > 0.8) ? 1 : 0;\<newline>''
     @ ''    \<newline>''
     @ ''    // return a blue mask where the mask is used as a transparency layer. With minor modificaitons one can also return the probabilities themselves.\<newline>''
     @ ''    return [0, 0, 0, 0.4 * BLDG_PROBA_080]\<newline>''
     @ ''}\<newline>''"

definition parse_trees :: "string list \<Rightarrow> tree list \<Rightarrow> error + string" where
  "parse_trees MODEL_INPUTS trees =
     (case tree_functions_from 0 trees MODEL_INPUTS of
        Inl e \<Rightarrow> Inl e
      | Inr fs \<Rightarrow>
          Inr (evalscript_head
               @ join ''\<newline>'' fs @ ''\<newline>''
               @ ''function predict('' @ MODEL_INPUTS_STR MODEL_INPUTS @ '') { \<newline>''
               @ ''    return [1/(1+Math.exp(-1*('' @ function_sum trees MODEL_INPUTS @ '')))];\<newline>''
               @ ''}\<newline>''))"

section \<open>LineString geometry handling\<close>

text \<open>
  \<^verbatim>\<open>cut\<close> works on a Shapely \<^verbatim>\<open>LineString\<close> through \<^verbatim>\<open>line.length\<close>,
  \<^verbatim>\<open>line.coords\<close>, \<^verbatim>\<open>line.project(Point(p))\<close>, \<^verbatim>\<open>line.interpolate(distance)\<close>
  and the constructor. A line is modelled by its list of \<open>(x, y)\<close> coordinates, and
  coordinates and distances are exact reals: the rounding of floating-point arithmetic
  is outside the model. The library operations follow Shapely and the linear
  referencing of GEOS beneath it:
  \<^item> \<^verbatim>\<open>length\<close> is the sum of the Euclidean lengths of the segments;
  \<^item> \<^verbatim>\<open>interpolate(d)\<close> is the point at arc length \<open>d\<close> from the start, the first
    coordinate for \<open>d \<le> 0\<close> and the last one beyond the end;
  \<^item> \<^verbatim>\<open>project(p)\<close> is the arc length of the point of the line nearest to \<open>p\<close>; GEOS
    walks the segments in order and keeps the first one at the least distance, so on a
    line that meets itself a point gets the arc length of its first visit;
  \<^item> \<^verbatim>\<open>LineString(coords)\<close> raises \<^verbatim>\<open>ValueError\<close> for a single coordinate.
\<close>

type_synonym coord = "real \<times> real"

definition seg_length :: "coord \<Rightarrow> coord \<Rightarrow> real" where
  "seg_length p q = sqrt ((fst q - fst p) ^ 2 + (snd q - snd p) ^ 2)"

fun line_length :: "coord list \<Rightarrow> real" where
  "line_length (p # q # cs) = seg_length p q + line_length (q # cs)"
| "line_length cs = 0"

definition point_along :: "coord \<Rightarrow> coord \<Rightarrow> real \<Rightarrow> coord" where
  "point_along p q t = (fst p + t * (fst q - fst p), snd p + t * (snd q - snd p))"

text \<open>
  \<open>interpolate\<close> of the empty line is Shapely's empty point; \<^verbatim>\<open>cut\<close> never asks for
  it, since the empty line has length 0 and is returned by the first test.
\<close>

fun interpolate :: "coord list \<Rightarrow> real \<Rightarrow> coord" where
  "interpolate (p # q # cs) d =
     (if d \<le> 0 then p
      else if d < seg_length p q then point_along p q (d / seg_length p q)
      else interpolate (q # cs) (d - seg_length p q))"
| "interpolate [p] d = p"
| "interpolate [] d = (0, 0)"

text \<open>
  The nearest point of the segment from \<open>a\<close> to \<open>b\<close> to a point \<open>p\<close> lies at the
  fraction \<open>segment_fraction a b p\<close> of the segment (the projection factor, kept within
  0 and 1), at the distance \<open>segment_distance a b p\<close> from \<open>p\<close>.
  \<open>index_of p start best cs\<close> is the loop of GEOS over the segments of \<open>cs\<close>: \<open>start\<close>
  is the arc length at which \<open>cs\<close> begins and \<open>best\<close> the least distance found so far
  with its arc length; a later segment replaces it only when strictly nearer. With no
  segment at all the loop keeps its initial index \<open>-1\<close>; \<^verbatim>\<open>cut\<close> never projects on
  such a line.
\<close>

definition segment_fraction :: "coord \<Rightarrow> coord \<Rightarrow> coord \<Rightarrow> real" where
  "segment_fraction a b p =
     (if a = b then 0
      else max 0 (min 1
             (((fst p - fst a) * (fst b - fst a) + (snd p - snd a) * (snd b - snd a))
                / ((fst b - fst a) ^ 2 + (snd b - snd a) ^ 2))))"

definition segment_distance :: "coord \<Rightarrow> coord \<Rightarrow> coord \<Rightarrow> real" where
  "segment_distance a b p = seg_length p (point_along a b (segment_fraction a b p))"

fun index_of :: "coord \<Rightarrow> real \<Rightarrow> (real \<times> real) option \<Rightarrow> coord list \<Rightarrow> real" where
  "index_of p start best (a # b # cs) =
     (let d = segment_distance a b p;
          m = start + segment_fraction a b p * seg_length a b;
          best' = (case best of
                     None \<Rightarrow> Some (d, m)
                   | Some (bd, bm) \<Rightarrow> if d < bd then Some (d, m) else best)
      in index_of p (start + seg_length a b) best' (b # cs))"
| "index_of p start best cs = (case best of None \<Rightarrow> - 1 | Some (bd, bm) \<Rightarrow> bm)"

definition project :: "coord list \<Rightarrow> coord \<Rightarrow> real" where
  "project line p = index_of p 0 None line"

definition LineString :: "coord list \<Rightarrow> error + coord list" where
  "LineString coords = (if length coords = 1 then Inl ValueError else Inr coords)"

text \<open>
  The loop \<^verbatim>\<open>for i, p in enumerate(coords)\<close> of \<^verbatim>\<open>cut\<close>, from index \<open>i\<close> on: it
  stops at the first vertex whose projection \<^verbatim>\<open>pd\<close> equals the distance (\<open>Exact\<close>)
  or exceeds it (\<open>Beyond\<close>), and ends with \<open>None\<close> when no vertex does.
\<close>

datatype hit = Exact nat | Beyond nat

fun find_vertex :: "coord list \<Rightarrow> real \<Rightarrow> nat \<Rightarrow> coord list \<Rightarrow> hit option" where
  "find_vertex line distance i [] = None"
| "find_vertex line distance i (p # ps) =
     (let pd = project line p
      in if pd = distance then Some (Exact i)
         else if distance < pd then Some (Beyond i)
         else find_vertex line distance (Suc i) ps)"

text \<open>
  \<^verbatim>\<open>cut(line, distance, lines)\<close>. The list \<^verbatim>\<open>lines\<close> is the caller's and is appended
  to in place, so the model returns, besides the value returned, what \<^verbatim>\<open>lines\<close>
  holds afterwards. The value returned is \<open>Some\<close> of a list of lines, or \<open>None\<close> when
  the loop ends without a \<^verbatim>\<open>return\<close> and Python returns \<^verbatim>\<open>None\<close>. On the
  interpolating path the value returned is the list \<^verbatim>\<open>lines\<close> itself, and the value
  of the recursive call is dropped, as in the source.
\<close>

function cut :: "coord list \<Rightarrow> real \<Rightarrow> coord list list
    \<Rightarrow> error + (coord list list option \<times> coord list list)" where
  "cut line distance lines =
     (if distance \<le> 0 \<or> line_length line \<le> distance then Inr (Some [line], lines)
      else
        (case find_vertex line distance 0 line of
           None \<Rightarrow> Inr (None, lines)
         | Some (Exact i) \<Rightarrow>
             (case LineString (take (i + 1) line) of
                Inl e \<Rightarrow> Inl e
              | Inr first \<Rightarrow>
                  (case LineString (drop i line) of
                     Inl e \<Rightarrow> Inl e
                   | Inr second \<Rightarrow> Inr (Some [first, second], lines)))
         | Some (Beyond i) \<Rightarrow>
             (let cp = interpolate line distance in
              case LineString (take i line @ [cp]) of
                Inl e \<Rightarrow> Inl e
              | Inr seg \<Rightarrow>
                  (case LineString (cp # drop i line) of
                     Inl e \<Rightarrow> Inl e
                   | Inr rest \<Rightarrow>
                       if distance < line_length rest then
                         (case cut rest distance (lines @ [seg]) of
                            Inl e \<Rightarrow> Inl e
                          | Inr (r, lines') \<Rightarrow> Inr (Some lines', lines'))
                       else
                         (case LineString (cp # drop i line) of
                            Inl e \<Rightarrow> Inl e
                          | Inr final \<Rightarrow>
                              Inr (Some (lines @ [seg, final]), lines @ [seg, final]))))))"
  by pat_completeness auto

subsection \<open>Termination of \<open>cut\<close>\<close>

text \<open>
  Each recursive call is on a line shorter by at least \<open>distance\<close>: the vertex \<open>i\<close> found
  by the loop projects beyond \<open>distance\<close>, a projection is never more than the arc
  length of the vertex (\<open>arc line i\<close>), and the straight way from the cut point to the
  vertex is not longer than the way along the line. The points are read as complex
  numbers (\<open>cx\<close>) to use the triangle inequality there.
\<close>

definition arc :: "coord list \<Rightarrow> nat \<Rightarrow> real" where
  "arc cs i = line_length (take (Suc i) cs)"

definition cx :: "coord \<Rightarrow> complex" where
  "cx p = Complex (fst p) (snd p)"

lemma seg_length_dist: "seg_length p q = dist (cx p) (cx q)"
  by (simp add: seg_length_def cx_def dist_norm cmod_def power2_commute)

lemma seg_length_nonneg [simp]: "0 \<le> seg_length p q"
  by (simp add: seg_length_def)

lemma line_length_nonneg [simp]: "0 \<le> line_length cs"
  by (induction cs rule: line_length.induct) auto

lemma arc_0 [simp]: "arc cs 0 = 0"
  by (cases cs) (auto simp: arc_def)

lemma arc_Suc [simp]: "arc (p # q # cs) (Suc i) = seg_length p q + arc (q # cs) i"
  by (simp add: arc_def)

lemma arc_nonneg: "0 \<le> arc cs i"
  by (simp add: arc_def)

lemma dist_hd_arc: "i < length cs \<Longrightarrow> dist (cx (hd cs)) (cx (cs ! i)) \<le> arc cs i"
proof (induction cs arbitrary: i rule: line_length.induct)
  case (1 p q cs)
  show ?case
  proof (cases i)
    case 0
    then show ?thesis by simp
  next
    case (Suc j)
    with 1 have "dist (cx q) (cx ((q # cs) ! j)) \<le> arc (q # cs) j" by simp
    moreover have "dist (cx p) (cx ((q # cs) ! j)) \<le> dist (cx p) (cx q) + dist (cx q) (cx ((q # cs) ! j))"
      by (rule dist_triangle)
    ultimately show ?thesis using Suc by (simp add: seg_length_dist)
  qed
qed (auto simp: less_Suc_eq_0_disj)

lemma point_along_dist_end:
  assumes "0 \<le> t" "t \<le> 1"
  shows "dist (cx (point_along p q t)) (cx q) = (1 - t) * dist (cx p) (cx q)"
proof -
  have "cx (point_along p q t) - cx q = (1 - t) *\<^sub>R (cx p - cx q)"
    by (rule complex_eqI) (simp_all add: point_along_def cx_def algebra_simps)
  then have "norm (cx (point_along p q t) - cx q) = \<bar>1 - t\<bar> * norm (cx p - cx q)"
    by simp
  then show ?thesis using assms by (simp add: dist_norm)
qed

lemma interpolate_dist:
  "0 \<le> d \<Longrightarrow> i < length cs \<Longrightarrow> d \<le> arc cs i \<Longrightarrow> dist (cx (interpolate cs d)) (cx (cs ! i)) \<le> arc cs i - d"
proof (induction cs d arbitrary: i rule: interpolate.induct)
  case (1 p q cs d)
  show ?case
  proof (cases i)
    case 0
    with 1 show ?thesis by simp
  next
    case (Suc j)
    have tgt: "dist (cx q) (cx ((q # cs) ! j)) \<le> arc (q # cs) j"
      using dist_hd_arc [of j "q # cs"] 1 Suc by simp
    consider "d \<le> 0" | "0 < d" "d < seg_length p q" | "0 < d" "seg_length p q \<le> d" by linarith
    then show ?thesis
    proof cases
      case 1
      then have "d = 0" using \<open>0 \<le> d\<close> by simp
      moreover have "dist (cx p) (cx ((p # q # cs) ! i)) \<le> arc (p # q # cs) i"
        using dist_hd_arc [of i "p # q # cs"] \<open>i < length (p # q # cs)\<close> by simp
      ultimately show ?thesis by simp
    next
      case 2
      let ?t = "d / seg_length p q"
      have t: "0 \<le> ?t" "?t \<le> 1" using 2 by auto
      have "dist (cx (point_along p q ?t)) (cx q) = (1 - ?t) * dist (cx p) (cx q)"
        using t by (rule point_along_dist_end)
      also have "\<dots> = seg_length p q - d"
        using 2 by (simp add: seg_length_dist [symmetric] field_simps)
      finally have a: "dist (cx (point_along p q ?t)) (cx q) = seg_length p q - d" .
      have "dist (cx (point_along p q ?t)) (cx ((q # cs) ! j)) \<le> dist (cx (point_along p q ?t)) (cx q) + dist (cx q) (cx ((q # cs) ! j))"
        by (rule dist_triangle)
      then show ?thesis using a tgt 2 Suc by simp
    next
      case 3
      have "dist (cx (interpolate (q # cs) (d - seg_length p q))) (cx ((q # cs) ! j))
            \<le> arc (q # cs) j - (d - seg_length p q)"
        using "1.IH" [of j] 3 "1.prems" Suc by simp
      then show ?thesis using 3 Suc by simp
    qed
  qed
next
  case (2 p d)
  then show ?case by simp
next
  case (3 d)
  then show ?case by simp
qed


lemma segment_fraction_range: "0 \<le> segment_fraction a b p" "segment_fraction a b p \<le> 1"
  by (auto simp: segment_fraction_def)

lemma segment_distance_nonneg [simp]: "0 \<le> segment_distance a b p"
  by (simp add: segment_distance_def)

lemma segment_fraction_start [simp]: "segment_fraction a b a = 0"
  by (simp add: segment_fraction_def)

lemma point_along_0 [simp]: "point_along p q 0 = p"
  by (simp add: point_along_def)

lemma seg_length_same [simp]: "seg_length p p = 0"
  by (simp add: seg_length_def)

lemma segment_distance_start [simp]: "segment_distance a b a = 0"
  by (simp add: segment_distance_def)

lemma index_of_zero: "index_of p start (Some (0, bm)) cs = bm"
proof (induction p start "Some (0 :: real, bm)" cs rule: index_of.induct)
  case (1 p start a b cs)
  have "\<not> segment_distance a b p < 0"
    using segment_distance_nonneg [of a b p] by linarith
  with 1 show ?case by (simp add: Let_def)
qed simp_all

lemma index_of_le_arc:
  "i < length cs \<Longrightarrow> cs ! i = p \<Longrightarrow>
   (case best of None \<Rightarrow> 2 \<le> length cs | Some (bd, bm) \<Rightarrow> 0 \<le> bd \<and> bm \<le> start + arc cs i) \<Longrightarrow>
   index_of p start best cs \<le> start + arc cs i"
proof (induction p start best cs arbitrary: i rule: index_of.induct)
  case (1 p start best a b cs)
  define d where "d = segment_distance a b p"
  define m where "m = start + segment_fraction a b p * seg_length a b"
  define best' where "best' = (case best of None \<Rightarrow> Some (d, m)
      | Some (bd, bm) \<Rightarrow> if d < bd then Some (d, m) else best)"
  have unfold: "index_of p start best (a # b # cs) = index_of p (start + seg_length a b) best' (b # cs)"
    unfolding d_def m_def best'_def by (simp add: Let_def)
  have "segment_fraction a b p * seg_length a b \<le> 1 * seg_length a b"
    using segment_fraction_range(2) [of a b p] seg_length_nonneg [of a b]
    by (rule mult_right_mono)
  then have m_le: "m \<le> start + seg_length a b"
    by (simp add: m_def)
  show ?case
  proof (cases i)
    case 0
    then have pa: "p = a" using 1 by simp
    then have d0: "d = 0" and m0: "m = start" by (simp_all add: d_def m_def)
    obtain m' where b': "best' = Some (0, m')" and m': "m' \<le> start"
    proof (cases best)
      case None
      then show ?thesis using that d0 m0 by (simp add: best'_def)
    next
      case (Some bb)
      obtain bd bm where bb: "bb = (bd, bm)" by (cases bb)
      with Some "1.prems" 0 have bd: "0 \<le> bd" "bm \<le> start" by simp_all
      show ?thesis
      proof (cases "0 < bd")
        case True
        then show ?thesis using that Some bb d0 m0 by (simp add: best'_def)
      next
        case False
        then have "bd = 0" using bd by simp
        then show ?thesis using that Some bb d0 bd by (simp add: best'_def)
      qed
    qed
    show ?thesis unfolding unfold b' index_of_zero using m' 0 by simp
  next
    case (Suc j)
    have j: "j < length (b # cs)" "(b # cs) ! j = p" using 1 Suc by simp_all
    have "case best' of None \<Rightarrow> 2 \<le> length (b # cs)
          | Some (bd, bm) \<Rightarrow> 0 \<le> bd \<and> bm \<le> (start + seg_length a b) + arc (b # cs) j"
    proof (cases best)
      case None
      then show ?thesis using m_le arc_nonneg [of "b # cs" j] by (simp add: best'_def d_def)
    next
      case (Some bb)
      obtain bd bm where bb: "bb = (bd, bm)" by (cases bb)
      with Some "1.prems" Suc have bd: "0 \<le> bd" "bm \<le> start + (seg_length a b + arc (b # cs) j)" by simp_all
      show ?thesis using Some bb bd m_le arc_nonneg [of "b # cs" j]
        by (simp add: best'_def d_def)
    qed
    then have "index_of p (start + seg_length a b) best' (b # cs) \<le> (start + seg_length a b) + arc (b # cs) j"
      using "1.IH" [OF d_def m_def best'_def j] by simp
    then show ?thesis unfolding unfold using Suc by simp
  qed
qed (auto split: option.splits)

lemma project_le_arc: "i < length line \<Longrightarrow> 2 \<le> length line \<Longrightarrow> project line (line ! i) \<le> arc line i"
  using index_of_le_arc [where i = i and cs = line and p = "line ! i" and best = None and start = 0]
  by (simp add: project_def)

lemma find_vertex_Beyond:
  "find_vertex line distance k ps = Some (Beyond i) \<Longrightarrow>
   k \<le> i \<and> i - k < length ps \<and> distance < project line (ps ! (i - k))"
proof (induction ps arbitrary: k)
  case Nil
  then show ?case by simp
next
  case (Cons p ps)
  show ?case
  proof (cases "project line p = distance \<or> distance < project line p")
    case True
    with Cons.prems show ?thesis by (auto simp: Let_def split: if_splits)
  next
    case False
    with Cons.prems have "find_vertex line distance (Suc k) ps = Some (Beyond i)"
      by (simp add: Let_def)
    from Cons.IH [OF this] show ?thesis
      by (auto simp: Suc_diff_le nth_Cons')
  qed
qed

lemma line_length_drop: "i < length cs \<Longrightarrow> line_length (drop i cs) = line_length cs - arc cs i"
proof (induction cs arbitrary: i rule: line_length.induct)
  case (1 p q cs)
  then show ?case by (cases i) auto
qed (auto simp: less_Suc_eq_0_disj)

lemma remainder_length:
  assumes "find_vertex line distance 0 line = Some (Beyond i)" and "0 < distance"
  shows "line_length (interpolate line distance # drop i line) \<le> line_length line - distance"
proof -
  from find_vertex_Beyond [OF assms(1)]
  have i: "i < length line" and pd: "distance < project line (line ! i)" by simp_all
  have len2: "2 \<le> length line"
  proof (rule ccontr)
    assume "\<not> 2 \<le> length line"
    then have "length line = 1" using i by simp
    then obtain a where "line = [a]" by (cases line) auto
    with pd i show False using assms(2) by (simp add: project_def)
  qed
  have "project line (line ! i) \<le> arc line i"
    using i len2 by (rule project_le_arc)
  with pd have d: "distance \<le> arc line i" by simp
  have "dist (cx (interpolate line distance)) (cx (line ! i)) \<le> arc line i - distance"
    using assms(2) i d by (simp add: interpolate_dist)
  moreover have "drop i line = line ! i # drop (Suc i) line"
    using i by (simp add: Cons_nth_drop_Suc)
  then have "line_length (interpolate line distance # drop i line)
      \<le> seg_length (interpolate line distance) (line ! i) + line_length (drop i line)"
    by (cases "drop (Suc i) line") (simp_all)
  ultimately show ?thesis
    using line_length_drop [OF i] by (simp add: seg_length_dist)
qed


lemma floor_quotient_decreases:
  fixes l l' d :: real
  assumes "0 < d" "d < l'" "l' \<le> l - d"
  shows "nat \<lfloor>l' / d\<rfloor> < nat \<lfloor>l / d\<rfloor>"
proof -
  have "l' / d \<le> l / d - 1"
    using assms by (simp add: field_simps)
  then have "\<lfloor>l' / d\<rfloor> \<le> \<lfloor>l / d - 1\<rfloor>"
    by (rule floor_mono)
  also have "\<lfloor>l / d - 1\<rfloor> = \<lfloor>l / d\<rfloor> - 1"
    by (rule floor_diff_one)
  finally have "\<lfloor>l' / d\<rfloor> < \<lfloor>l / d\<rfloor>"
    by simp
  moreover have "0 \<le> \<lfloor>l' / d\<rfloor>"
    using assms by simp
  ultimately show ?thesis by linarith
qed

termination cut
proof (relation "measure (\<lambda>(line, distance, lines). nat \<lfloor>line_length line / distance\<rfloor>)", goal_cases)
  case 1
  show ?case by simp
next
  case (2 line distance lines hit i cp seg rest)
  then have rest: "rest = interpolate line distance # drop i line"
    by (simp add: LineString_def split: if_splits)
  have "line_length rest \<le> line_length line - distance"
    unfolding rest using 2 by (intro remainder_length) (simp_all add: not_le)
  with 2 have "nat \<lfloor>line_length rest / distance\<rfloor> < nat \<lfloor>line_length line / distance\<rfloor>"
    by (intro floor_quotient_decreases) (simp_all add: not_le)
  then show ?case by simp
qed

declare cut.simps [simp del]

text \<open>
  \<open>interpolated line distance\<close>: in the call of \<^verbatim>\<open>cut\<close> on \<open>line\<close> and in every
  recursive call it leads to, the loop stops at a vertex whose projection exceeds the
  distance, so that every cut is made at an interpolated point.
\<close>

inductive interpolated :: "coord list \<Rightarrow> real \<Rightarrow> bool" where
  final: "find_vertex line distance 0 line = Some (Beyond i) \<Longrightarrow>
      line_length (interpolate line distance # drop i line) \<le> distance \<Longrightarrow>
      interpolated line distance"
| again: "find_vertex line distance 0 line = Some (Beyond i) \<Longrightarrow>
      distance < line_length (interpolate line distance # drop i line) \<Longrightarrow>
      interpolated (interpolate line distance # drop i line) distance \<Longrightarrow>
      interpolated line distance"

section \<open>Notions of the specification\<close>

text \<open>
  The concatenation of segments with shared end points that the specification speaks
  of: each segment after the first gives all its coordinates but the first one.
\<close>

fun join_shared :: "coord list list \<Rightarrow> coord list" where
  "join_shared [] = []"
| "join_shared [s] = s"
| "join_shared (s # t # ss) = s @ tl (join_shared (t # ss))"

text \<open>
  Consecutive segments share an end point: each segment ends where the next begins.
\<close>

fun chained :: "coord list list \<Rightarrow> bool" where
  "chained (s # t # ss) = (s \<noteq> [] \<and> t \<noteq> [] \<and> last s = hd t \<and> chained (t # ss))"
| "chained ss = True"

text \<open>
  \<open>inserted ps xs ys\<close>: the sequence \<open>ys\<close> is the sequence \<open>xs\<close> with the points \<open>ps\<close>
  inserted, in this order, at some places.
\<close>

fun inserted :: "coord list \<Rightarrow> coord list \<Rightarrow> coord list \<Rightarrow> bool" where
  "inserted ps xs [] = (ps = [] \<and> xs = [])"
| "inserted ps xs (y # ys) =
     ((case ps of [] \<Rightarrow> False | p # ps' \<Rightarrow> p = y \<and> inserted ps' xs ys)
      \<or> (case xs of [] \<Rightarrow> False | x # xs' \<Rightarrow> x = y \<and> inserted ps xs' ys))"

text \<open>
  \<open>cut_at_distance d line segments\<close>: every point at which two consecutive segments
  meet is the point at arc length \<open>d\<close> along the line that remained to be cut, and the
  segment before it holds the coordinates of that line before the first vertex whose
  projection exceeds \<open>d\<close>. The line that remains after a segment \<open>s\<close> starts at that
  point and goes on with the coordinates of the line that \<open>s\<close> did not take.
\<close>

fun cut_at_distance :: "real \<Rightarrow> coord list \<Rightarrow> coord list list \<Rightarrow> bool" where
  "cut_at_distance d line (s # t # ss) =
     (hd t = interpolate line d
      \<and> find_vertex line d 0 line = Some (Beyond (length s - 1))
      \<and> cut_at_distance d (hd t # drop (length s - 1) line) (t # ss))"
| "cut_at_distance d line ss = True"

text \<open>
  The \<^verbatim>\<open>predict\<close> function as the specification words it for two trees, its body
  returning the bare expression.
\<close>

definition claimed_predict :: "string \<Rightarrow> string" where
  "claimed_predict args =
     ''function predict('' @ args @ '') { \<newline>''
     @ ''    return 1/(1+Math.exp(-1*(pt0('' @ args @ '')+pt1('' @ args @ ''))));\<newline>''
     @ ''}\<newline>''"

text \<open>
  The rounding the specification names for leaf scores: to the nearest multiple of
  \<open>10 ^ (- ndigits)\<close>, a tie going up. It is not what the code calls.
\<close>

definition round_half_up :: "pyfloat \<Rightarrow> int \<Rightarrow> pyfloat" where
  "round_half_up x ndigits =
     PyFloat (negative x)
       (nearest_double (of_int \<lfloor>magnitude x * pow_int 10 ndigits + 1 / 2\<rfloor> / pow_int 10 ndigits))"

section \<open>Properties of the model compiler\<close>

lemma list_index_out_of_range:
  "int (length xs) \<le> i \<or> i < - int (length xs) \<Longrightarrow> list_index xs i = Inl IndexError"
  by (auto simp: list_index_def)

lemma list_index_position:
  "0 \<le> i \<Longrightarrow> i < int (length xs) \<Longrightarrow> list_index xs i = Inr (xs ! nat i)"
  by (simp add: list_index_def)



lemma parse_subtree_Split:
  "parse_subtree (Split sf th dt l r) model_inputs brackets =
     (case list_index model_inputs sf of
        Inl e \<Rightarrow> Inl e
      | Inr feature \<Rightarrow>
          (case parse_subtree l model_inputs True of
             Inl e \<Rightarrow> Inl e
           | Inr left \<Rightarrow>
               (case parse_subtree r model_inputs True of
                  Inl e \<Rightarrow> Inl e
                | Inr right \<Rightarrow>
                    Inr ((if brackets then ''('' else []) @
                         ''('' @ feature @ dt @ float_repr th @ '')?'' @ left @ '':'' @ right @
                         (if brackets then '')'' else [])))))"
  by (simp add: PRECISION_THRESHOLD_def round_to_def split: sum.splits)

lemma parse_subtree_Leaf:
  "parse_subtree (Leaf li lv) model_inputs brackets =
     (case py_round lv 4 of Inl e \<Rightarrow> Inl e | Inr score \<Rightarrow> Inr (float_repr score))"
  by (simp add: PRECISION_SCORES_def round_to_def)

declare parse_subtree.simps [simp del]

text \<open>
  C3. A split whose \<^verbatim>\<open>split_feature\<close> is out of the range of \<^verbatim>\<open>model_inputs\<close>, that
  is at least \<open>len\<close> or below \<open>- len\<close>, the indices for which Python raises, makes
  \<^verbatim>\<open>parse_subtree\<close> fail with \<^verbatim>\<open>IndexError\<close>, whatever its children are. The
  resolution is positional: an index \<open>0 \<le> sf < len\<close> puts the name at position \<open>sf\<close>
  into the condition. (The negative indices \<open>- len \<le> sf < 0\<close> are C10.)
\<close>

theorem parse_subtree_feature_out_of_range:
  "(int (length model_inputs) \<le> sf \<or> sf < - int (length model_inputs) \<longrightarrow>
      parse_subtree (Split sf th dt l r) model_inputs brackets = Inl IndexError)
   \<and> (0 \<le> sf \<and> sf < int (length model_inputs) \<longrightarrow>
      parse_subtree (Split sf th dt l r) model_inputs brackets =
        (case parse_subtree l model_inputs True of
           Inl e \<Rightarrow> Inl e
         | Inr left \<Rightarrow>
             (case parse_subtree r model_inputs True of
                Inl e \<Rightarrow> Inl e
              | Inr right \<Rightarrow>
                  Inr ((if brackets then ''('' else []) @
                       ''('' @ model_inputs ! nat sf @ dt @ float_repr th @ '')?'' @ left @ '':'' @ right @
                       (if brackets then '')'' else [])))))"
proof (intro conjI impI)
  assume "int (length model_inputs) \<le> sf \<or> sf < - int (length model_inputs)"
  then have "list_index model_inputs sf = Inl IndexError"
    by (rule list_index_out_of_range)
  then show "parse_subtree (Split sf th dt l r) model_inputs brackets = Inl IndexError"
    by (simp add: parse_subtree_Split)
next
  assume "0 \<le> sf \<and> sf < int (length model_inputs)"
  then have "list_index model_inputs sf = Inr (model_inputs ! nat sf)"
    by (simp add: list_index_position)
  then show "parse_subtree (Split sf th dt l r) model_inputs brackets =
        (case parse_subtree l model_inputs True of
           Inl e \<Rightarrow> Inl e
         | Inr left \<Rightarrow>
             (case parse_subtree r model_inputs True of
                Inl e \<Rightarrow> Inl e
              | Inr right \<Rightarrow>
                  Inr ((if brackets then ''('' else []) @
                       ''('' @ model_inputs ! nat sf @ dt @ float_repr th @ '')?'' @ left @ '':'' @ right @
                       (if brackets then '')'' else []))))"
    by (simp add: parse_subtree_Split)
qed

lemma leaf_one: "parse_subtree (Leaf 0 (float_lit 1)) model_inputs brackets = Inr ''1.0''"
  by code_simp

lemma leaf_minus_one: "parse_subtree (Leaf 1 (float_lit (- 1))) model_inputs brackets = Inr ''-1.0''"
  by code_simp

lemma leaf_two: "parse_subtree (Leaf 2 (float_lit 2)) model_inputs brackets = Inr ''2.0''"
  by code_simp

lemma repr_one_and_a_half: "float_repr (float_lit (3 / 2)) = ''1.5''"
  by code_simp

lemma repr_one_half: "float_repr (float_lit (1 / 2)) = ''0.5''"
  by code_simp

lemma leaf_tie: "parse_subtree (Leaf 0 (float_lit (1 / 32))) [] True = Inr ''0.0312''"
  by code_simp

theorem parse_subtree_feature_out_of_range_witness:
  "parse_subtree (Split 1 (float_lit (3 / 2)) ''<='' (Leaf 0 (float_lit 1)) (Leaf 1 (float_lit (- 1))))
     [''B01''] False = Inl IndexError
   \<and> parse_subtree (Split (- 2) (float_lit (3 / 2)) ''<='' (Leaf 0 (float_lit 1)) (Leaf 1 (float_lit (- 1))))
     [''B01''] False = Inl IndexError
   \<and> parse_subtree (Split 0 (float_lit (3 / 2)) ''<='' (Leaf 0 (float_lit 1)) (Leaf 1 (float_lit (- 1))))
     [''B01''] True = Inr ''((B01<=1.5)?1.0:-1.0)''"
  using parse_subtree_feature_out_of_range [of "[''B01'']" 1 "float_lit (3 / 2)" "''<=''"
      "Leaf 0 (float_lit 1)" "Leaf 1 (float_lit (- 1))" False]
    parse_subtree_feature_out_of_range [of "[''B01'']" "- 2" "float_lit (3 / 2)" "''<=''"
      "Leaf 0 (float_lit 1)" "Leaf 1 (float_lit (- 1))" False]
    parse_subtree_feature_out_of_range [of "[''B01'']" 0 "float_lit (3 / 2)" "''<=''"
      "Leaf 0 (float_lit 1)" "Leaf 1 (float_lit (- 1))" True]
  by (simp add: leaf_one leaf_minus_one repr_one_and_a_half)




text \<open>
  C5. The split \<^verbatim>\<open>{split_feature: 0, threshold: 1.5, decision_type: "<="}\<close> over the
  leaves \<open>1.0\<close> and \<open>-1.0\<close>, parsed at the root (\<^verbatim>\<open>brackets=False\<close>) with
  \<^verbatim>\<open>model_inputs = ["B01"]\<close>, gives \<^verbatim>\<open>(B01<=1.5)?1.0:-1.0\<close>. In general a split
  parsed with \<^verbatim>\<open>brackets=True\<close> is the text of the same split parsed with
  \<^verbatim>\<open>brackets=False\<close> inside one more pair of parentheses, and the call with
  \<^verbatim>\<open>brackets=False\<close> returns a text exactly if the feature lookup and both children,
  parsed with \<^verbatim>\<open>brackets=True\<close>, do: then the text is the bare ternary over the
  children's texts. A split below the root so carries one extra pair, as in the last
  example.
\<close>

theorem parse_subtree_root_brackets:
  "parse_subtree (Split 0 (float_lit (3 / 2)) ''<='' (Leaf 0 (float_lit 1)) (Leaf 1 (float_lit (- 1))))
     [''B01''] False = Inr ''(B01<=1.5)?1.0:-1.0''
   \<and> parse_subtree (Split sf th dt l r) model_inputs True =
       (case parse_subtree (Split sf th dt l r) model_inputs False of
          Inl e \<Rightarrow> Inl e
        | Inr result \<Rightarrow> Inr (''('' @ result @ '')''))
   \<and> (parse_subtree (Split sf th dt l r) model_inputs False = Inr result \<longleftrightarrow>
       (\<exists>feature left right.
          list_index model_inputs sf = Inr feature \<and>
          parse_subtree l model_inputs True = Inr left \<and>
          parse_subtree r model_inputs True = Inr right \<and>
          result = ''('' @ feature @ dt @ float_repr th @ '')?'' @ left @ '':'' @ right))
   \<and> parse_subtree
        (Split 0 (float_lit (3 / 2)) ''<=''
           (Split 0 (float_lit (1 / 2)) ''<='' (Leaf 0 (float_lit 1)) (Leaf 1 (float_lit (- 1))))
           (Leaf 2 (float_lit 2)))
        [''B01''] False = Inr ''(B01<=1.5)?((B01<=0.5)?1.0:-1.0):2.0''"
proof (intro conjI)
  show "parse_subtree (Split 0 (float_lit (3 / 2)) ''<='' (Leaf 0 (float_lit 1)) (Leaf 1 (float_lit (- 1))))
     [''B01''] False = Inr ''(B01<=1.5)?1.0:-1.0''"
    by (simp add: parse_subtree_Split list_index_def leaf_one leaf_minus_one repr_one_and_a_half)
  show "parse_subtree (Split sf th dt l r) model_inputs True =
       (case parse_subtree (Split sf th dt l r) model_inputs False of
          Inl e \<Rightarrow> Inl e
        | Inr result \<Rightarrow> Inr (''('' @ result @ '')''))"
    by (simp add: parse_subtree_Split split: sum.splits)
  show "parse_subtree (Split sf th dt l r) model_inputs False = Inr result \<longleftrightarrow>
       (\<exists>feature left right.
          list_index model_inputs sf = Inr feature \<and>
          parse_subtree l model_inputs True = Inr left \<and>
          parse_subtree r model_inputs True = Inr right \<and>
          result = ''('' @ feature @ dt @ float_repr th @ '')?'' @ left @ '':'' @ right)"
    by (auto simp: parse_subtree_Split split: sum.splits)
  show "parse_subtree
        (Split 0 (float_lit (3 / 2)) ''<=''
           (Split 0 (float_lit (1 / 2)) ''<='' (Leaf 0 (float_lit 1)) (Leaf 1 (float_lit (- 1))))
           (Leaf 2 (float_lit 2)))
        [''B01''] False = Inr ''(B01<=1.5)?((B01<=0.5)?1.0:-1.0):2.0''"
    by (simp add: parse_subtree_Split list_index_def leaf_one leaf_minus_one leaf_two
        repr_one_and_a_half repr_one_half)
qed

text \<open>
  C6, as stated, fails: the leaf value \<open>0.03125 = 1 / 32\<close> is a double that lies
  exactly half way between \<open>0.0312\<close> and \<open>0.0313\<close>. Python's \<^verbatim>\<open>round\<close> takes a tie to
  the even digit, so the leaf is printed as \<^verbatim>\<open>0.0312\<close>, where rounding half up gives
  \<^verbatim>\<open>0.0313\<close>.
\<close>

lemma tie_half_up: "float_repr (round_half_up (float_lit (1 / 32)) 4) = ''0.0313''"
  by code_simp

lemma tie_magnitude: "magnitude (float_lit (1 / 32)) * 10 ^ 4 = 312 + 1 / 2"
  by code_simp

theorem leaf_half_up_counterexample:
  "magnitude (float_lit (1 / 32)) * 10 ^ 4 = 312 + 1 / 2
   \<and> parse_subtree (Leaf 0 (float_lit (1 / 32))) [] True = Inr ''0.0312''
   \<and> float_repr (round_half_up (float_lit (1 / 32)) 4) = ''0.0313''"
  using tie_magnitude leaf_tie tie_half_up by simp

text \<open>
  C6, amended. The leaf \<^verbatim>\<open>{leaf_value: 0.123456, leaf_index: 0}\<close> is printed as
  \<^verbatim>\<open>0.1235\<close>. In general the text of a leaf, when \<^verbatim>\<open>round\<close> does not overflow, is
  the \<^verbatim>\<open>repr\<close> of the double nearest to the score rounded to the nearest multiple
  of \<open>10 ^ (- 4)\<close>, a tie going to the even multiple, with the score's sign.
\<close>

theorem leaf_score_rounding:
  "parse_subtree (Leaf 0 (float_lit (123456 / 1000000))) model_inputs brackets = Inr ''0.1235''
   \<and> (parse_subtree (Leaf li lv) model_inputs brackets = Inr text \<longrightarrow>
       text = float_repr (PyFloat (negative lv)
                (nearest_double (of_int (round_half_even (magnitude lv * 10 ^ 4)) / 10 ^ 4))))"
proof (intro conjI impI)
  show "parse_subtree (Leaf 0 (float_lit (123456 / 1000000))) model_inputs brackets = Inr ''0.1235''"
    by code_simp
  assume "parse_subtree (Leaf li lv) model_inputs brackets = Inr text"
  then show "text = float_repr (PyFloat (negative lv)
                (nearest_double (of_int (round_half_even (magnitude lv * 10 ^ 4)) / 10 ^ 4)))"
    by (auto simp: parse_subtree_Leaf py_round_def pow_int_def Let_def split: if_splits)
qed

theorem leaf_score_rounding_witness:
  "parse_subtree (Leaf 0 (float_lit (1 / 32))) [] True = Inr ''0.0312''
   \<and> ''0.0312'' = float_repr (PyFloat (negative (float_lit (1 / 32)))
        (nearest_double (of_int (round_half_even (magnitude (float_lit (1 / 32)) * 10 ^ 4)) / 10 ^ 4)))"
  using leaf_score_rounding [of "[]" True 0 "float_lit (1 / 32)" "''0.0312''"] leaf_tie
  by simp


lemma str_int_0: "str_int 0 = ''0''"
  by (simp add: str_int_def str_digits.simps digit_char_def)

lemma str_int_1: "str_int 1 = ''1''"
  by (simp add: str_int_def str_digits.simps digit_char_def)

lemma tree_functions_from_two:
  "tree_functions_from 0 [t0, t1] MODEL_INPUTS =
     (case parse_subtree (tree_structure t0) MODEL_INPUTS False of
        Inl e \<Rightarrow> Inl e
      | Inr body0 \<Rightarrow>
          (case parse_subtree (tree_structure t1) MODEL_INPUTS False of
             Inl e \<Rightarrow> Inl e
           | Inr body1 \<Rightarrow>
               Inr [''\<newline>function pt0('' @ join '', '' MODEL_INPUTS @ '') { \<newline>''
                    @ ''   return '' @ body0 @ '';\<newline>''
                    @ ''}\<newline>'',
                    ''\<newline>function pt1('' @ join '', '' MODEL_INPUTS @ '') { \<newline>''
                    @ ''   return '' @ body1 @ '';\<newline>''
                    @ ''}\<newline>'']))"
  by (simp add: parse_one_tree_def MODEL_INPUTS_STR_def str_int_0 str_int_1 split: sum.splits)

lemma function_sum_two:
  "function_sum [t0, t1] MODEL_INPUTS =
     ''pt0('' @ join '', '' MODEL_INPUTS @ '')+pt1('' @ join '', '' MODEL_INPUTS @ '')''"
proof -
  have "[0..<length [t0, t1]] = [0, Suc 0]"
    by (simp add: upt_rec)
  then show ?thesis
    by (simp add: function_sum_def MODEL_INPUTS_STR_def str_int_0 str_int_1)
qed

lemma leaf_scenario:
  "parse_subtree (Leaf 0 (float_lit (123456 / 1000000))) model_inputs brackets = Inr ''0.1235''"
  by code_simp

lemma leaf_scenario_reduced:
  "parse_subtree (Leaf 0 (float_lit (1929 / 15625))) model_inputs brackets = Inr ''0.1235''"
  using leaf_scenario [of model_inputs brackets] by simp

lemma split_scenario:
  "parse_subtree (Split 0 (float_lit (3 / 2)) ''<='' (Leaf 0 (float_lit 1)) (Leaf 1 (float_lit (- 1))))
     [''NDVI'', ''STI''] False = Inr ''(NDVI<=1.5)?1.0:-1.0''"
  by (simp add: parse_subtree_Split list_index_def leaf_one leaf_minus_one repr_one_and_a_half)

lemma split_without_names:
  "parse_subtree (Split 0 (float_lit (3 / 2)) ''<='' (Leaf 0 (float_lit 1)) (Leaf 1 (float_lit (- 1))))
     [] False = Inl IndexError"
  by (simp add: parse_subtree_Split list_index_def)

lemma two_trees_example:
  "parse_trees [''NDVI'', ''STI'']
     [\<lparr>tree_structure =
         Split 0 (float_lit (3 / 2)) ''<='' (Leaf 0 (float_lit 1)) (Leaf 1 (float_lit (- 1)))\<rparr>,
      \<lparr>tree_structure = Leaf 0 (float_lit (123456 / 1000000))\<rparr>]
   = Inr (evalscript_head
          @ ''\<newline>function pt0(NDVI, STI) { \<newline>''
          @ ''   return (NDVI<=1.5)?1.0:-1.0;\<newline>''
          @ ''}\<newline>''
          @ ''\<newline>''
          @ ''\<newline>function pt1(NDVI, STI) { \<newline>''
          @ ''   return 0.1235;\<newline>''
          @ ''}\<newline>''
          @ ''\<newline>''
          @ ''function predict(NDVI, STI) { \<newline>''
          @ ''    return [1/(1+Math.exp(-1*(pt0(NDVI, STI)+pt1(NDVI, STI))))];\<newline>''
          @ ''}\<newline>'')"
  unfolding parse_trees_def tree_functions_from_two function_sum_two
  by (simp add: MODEL_INPUTS_STR_def split_scenario leaf_scenario_reduced)

text \<open>
  C2, as stated, fails in two ways. For the two trees below and the feature names
  \<^verbatim>\<open>NDVI\<close>, \<^verbatim>\<open>STI\<close> the program ends with a \<^verbatim>\<open>predict\<close> whose body returns the
  expression inside a one-element array literal, \<^verbatim>\<open>return [1/(1+Math.exp(...))];\<close>,
  which is not the \<^verbatim>\<open>predict\<close> of the claim. And with the notebook's own
  \<^verbatim>\<open>MODEL_INPUTS = []\<close> the same two trees give no program at all: the split raises
  \<^verbatim>\<open>IndexError\<close>.
\<close>

theorem parse_trees_predict_counterexample:
  "parse_trees [''NDVI'', ''STI'']
     [\<lparr>tree_structure =
         Split 0 (float_lit (3 / 2)) ''<='' (Leaf 0 (float_lit 1)) (Leaf 1 (float_lit (- 1)))\<rparr>,
      \<lparr>tree_structure = Leaf 0 (float_lit (123456 / 1000000))\<rparr>]
   = Inr (evalscript_head
          @ ''\<newline>function pt0(NDVI, STI) { \<newline>''
          @ ''   return (NDVI<=1.5)?1.0:-1.0;\<newline>''
          @ ''}\<newline>''
          @ ''\<newline>''
          @ ''\<newline>function pt1(NDVI, STI) { \<newline>''
          @ ''   return 0.1235;\<newline>''
          @ ''}\<newline>''
          @ ''\<newline>''
          @ ''function predict(NDVI, STI) { \<newline>''
          @ ''    return [1/(1+Math.exp(-1*(pt0(NDVI, STI)+pt1(NDVI, STI))))];\<newline>''
          @ ''}\<newline>'')
   \<and> ''function predict(NDVI, STI) { \<newline>''
       @ ''    return [1/(1+Math.exp(-1*(pt0(NDVI, STI)+pt1(NDVI, STI))))];\<newline>''
       @ ''}\<newline>'' \<noteq> claimed_predict ''NDVI, STI''
   \<and> parse_trees []
       [\<lparr>tree_structure =
           Split 0 (float_lit (3 / 2)) ''<='' (Leaf 0 (float_lit 1)) (Leaf 1 (float_lit (- 1)))\<rparr>,
        \<lparr>tree_structure = Leaf 0 (float_lit (123456 / 1000000))\<rparr>]
     = Inl IndexError"
proof (intro conjI)
  show "parse_trees [''NDVI'', ''STI'']
     [\<lparr>tree_structure =
         Split 0 (float_lit (3 / 2)) ''<='' (Leaf 0 (float_lit 1)) (Leaf 1 (float_lit (- 1)))\<rparr>,
      \<lparr>tree_structure = Leaf 0 (float_lit (123456 / 1000000))\<rparr>]
   = Inr (evalscript_head
          @ ''\<newline>function pt0(NDVI, STI) { \<newline>''
          @ ''   return (NDVI<=1.5)?1.0:-1.0;\<newline>''
          @ ''}\<newline>''
          @ ''\<newline>''
          @ ''\<newline>function pt1(NDVI, STI) { \<newline>''
          @ ''   return 0.1235;\<newline>''
          @ ''}\<newline>''
          @ ''\<newline>''
          @ ''function predict(NDVI, STI) { \<newline>''
          @ ''    return [1/(1+Math.exp(-1*(pt0(NDVI, STI)+pt1(NDVI, STI))))];\<newline>''
          @ ''}\<newline>'')"
    by (rule two_trees_example)
  show "''function predict(NDVI, STI) { \<newline>''
       @ ''    return [1/(1+Math.exp(-1*(pt0(NDVI, STI)+pt1(NDVI, STI))))];\<newline>''
       @ ''}\<newline>'' \<noteq> claimed_predict ''NDVI, STI''"
    by (simp add: claimed_predict_def)
  show "parse_trees []
       [\<lparr>tree_structure =
           Split 0 (float_lit (3 / 2)) ''<='' (Leaf 0 (float_lit 1)) (Leaf 1 (float_lit (- 1)))\<rparr>,
        \<lparr>tree_structure = Leaf 0 (float_lit (123456 / 1000000))\<rparr>]
     = Inl IndexError"
    unfolding parse_trees_def tree_functions_from_two
    by (simp add: split_without_names)
qed

text \<open>
  C2, amended. For an ensemble of exactly two trees whose roots both parse,
  \<^verbatim>\<open>parse_trees\<close> returns a program: the fixed head, the definition of \<^verbatim>\<open>pt0\<close>, the
  definition of \<^verbatim>\<open>pt1\<close> (two per-tree functions, numbered 0 and 1, each with the
  joined feature names as its parameters and the text of its root as the value
  returned) and a \<^verbatim>\<open>predict\<close> whose body returns the one-element array
  \<^verbatim>\<open>[1/(1+Math.exp(-1*(pt0(...)+pt1(...))))]\<close>, each call on that same list of names.
  If a root does not parse, what it raises is raised and no program is returned.
\<close>

theorem parse_trees_two_trees:
  "(parse_subtree (tree_structure t0) MODEL_INPUTS False = Inr body0
      \<and> parse_subtree (tree_structure t1) MODEL_INPUTS False = Inr body1 \<longrightarrow>
      tree_functions_from 0 [t0, t1] MODEL_INPUTS =
        Inr [''\<newline>function pt0('' @ join '', '' MODEL_INPUTS @ '') { \<newline>''
             @ ''   return '' @ body0 @ '';\<newline>''
             @ ''}\<newline>'',
             ''\<newline>function pt1('' @ join '', '' MODEL_INPUTS @ '') { \<newline>''
             @ ''   return '' @ body1 @ '';\<newline>''
             @ ''}\<newline>'']
      \<and> parse_trees MODEL_INPUTS [t0, t1] =
        Inr (evalscript_head
             @ ''\<newline>function pt0('' @ join '', '' MODEL_INPUTS @ '') { \<newline>''
             @ ''   return '' @ body0 @ '';\<newline>''
             @ ''}\<newline>''
             @ ''\<newline>''
             @ ''\<newline>function pt1('' @ join '', '' MODEL_INPUTS @ '') { \<newline>''
             @ ''   return '' @ body1 @ '';\<newline>''
             @ ''}\<newline>''
             @ ''\<newline>''
             @ ''function predict('' @ join '', '' MODEL_INPUTS @ '') { \<newline>''
             @ ''    return [1/(1+Math.exp(-1*(pt0('' @ join '', '' MODEL_INPUTS
             @ '')+pt1('' @ join '', '' MODEL_INPUTS @ ''))))];\<newline>''
             @ ''}\<newline>''))
   \<and> (parse_subtree (tree_structure t0) MODEL_INPUTS False = Inl e \<longrightarrow>
        parse_trees MODEL_INPUTS [t0, t1] = Inl e)
   \<and> (parse_subtree (tree_structure t0) MODEL_INPUTS False = Inr body0
        \<and> parse_subtree (tree_structure t1) MODEL_INPUTS False = Inl e \<longrightarrow>
        parse_trees MODEL_INPUTS [t0, t1] = Inl e)"
  unfolding parse_trees_def tree_functions_from_two function_sum_two
  by (simp add: MODEL_INPUTS_STR_def)

theorem parse_trees_two_trees_witness:
  "tree_functions_from 0
     [\<lparr>tree_structure =
         Split 0 (float_lit (3 / 2)) ''<='' (Leaf 0 (float_lit 1)) (Leaf 1 (float_lit (- 1)))\<rparr>,
      \<lparr>tree_structure = Leaf 0 (float_lit (123456 / 1000000))\<rparr>] [''NDVI'', ''STI'']
   = Inr [''\<newline>function pt0(NDVI, STI) { \<newline>''
          @ ''   return (NDVI<=1.5)?1.0:-1.0;\<newline>''
          @ ''}\<newline>'',
          ''\<newline>function pt1(NDVI, STI) { \<newline>''
          @ ''   return 0.1235;\<newline>''
          @ ''}\<newline>'']
   \<and> parse_trees [''NDVI'', ''STI'']
     [\<lparr>tree_structure =
         Split 0 (float_lit (3 / 2)) ''<='' (Leaf 0 (float_lit 1)) (Leaf 1 (float_lit (- 1)))\<rparr>,
      \<lparr>tree_structure = Leaf 0 (float_lit (123456 / 1000000))\<rparr>]
   = Inr (evalscript_head
          @ ''\<newline>function pt0(NDVI, STI) { \<newline>''
          @ ''   return (NDVI<=1.5)?1.0:-1.0;\<newline>''
          @ ''}\<newline>''
          @ ''\<newline>''
          @ ''\<newline>function pt1(NDVI, STI) { \<newline>''
          @ ''   return 0.1235;\<newline>''
          @ ''}\<newline>''
          @ ''\<newline>''
          @ ''function predict(NDVI, STI) { \<newline>''
          @ ''    return [1/(1+Math.exp(-1*(pt0(NDVI, STI)+pt1(NDVI, STI))))];\<newline>''
          @ ''}\<newline>'')
   \<and> parse_trees []
       [\<lparr>tree_structure =
           Split 0 (float_lit (3 / 2)) ''<='' (Leaf 0 (float_lit 1)) (Leaf 1 (float_lit (- 1)))\<rparr>,
        \<lparr>tree_structure = Leaf 0 (float_lit (123456 / 1000000))\<rparr>]
     = Inl IndexError
   \<and> parse_trees []
       [\<lparr>tree_structure = Leaf 0 (float_lit (123456 / 1000000))\<rparr>,
        \<lparr>tree_structure =
           Split 0 (float_lit (3 / 2)) ''<='' (Leaf 0 (float_lit 1)) (Leaf 1 (float_lit (- 1)))\<rparr>]
     = Inl IndexError"
  using
    parse_trees_two_trees [of
      "\<lparr>tree_structure =
         Split 0 (float_lit (3 / 2)) ''<='' (Leaf 0 (float_lit 1)) (Leaf 1 (float_lit (- 1)))\<rparr>"
      "[''NDVI'', ''STI'']" "''(NDVI<=1.5)?1.0:-1.0''"
      "\<lparr>tree_structure = Leaf 0 (float_lit (123456 / 1000000))\<rparr>" "''0.1235''" IndexError]
    parse_trees_two_trees [of
      "\<lparr>tree_structure =
         Split 0 (float_lit (3 / 2)) ''<='' (Leaf 0 (float_lit 1)) (Leaf 1 (float_lit (- 1)))\<rparr>"
      "[]" "''0.1235''"
      "\<lparr>tree_structure = Leaf 0 (float_lit (123456 / 1000000))\<rparr>" "''0.1235''" IndexError]
    parse_trees_two_trees [of
      "\<lparr>tree_structure = Leaf 0 (float_lit (123456 / 1000000))\<rparr>"
      "[]" "''0.1235''"
      "\<lparr>tree_structure =
         Split 0 (float_lit (3 / 2)) ''<='' (Leaf 0 (float_lit 1)) (Leaf 1 (float_lit (- 1)))\<rparr>"
      "''0.1235''" IndexError]
  by (simp add: split_scenario split_without_names leaf_scenario_reduced)

section \<open>Properties of \<open>cut\<close>\<close>

lemma seg_length_horizontal: "seg_length (x1, y) (x2, y) = \<bar>x2 - x1\<bar>"
  by (simp add: seg_length_def)

lemma seg_length_vertical: "seg_length (x, y1) (x, y2) = \<bar>y2 - y1\<bar>"
  by (simp add: seg_length_def)

lemmas geometry_eval =
  seg_length_horizontal seg_length_vertical segment_fraction_def segment_distance_def
  point_along_def project_def LineString_def Let_def

lemma project_first: "project (a # b # cs) a = 0"
  by (simp add: project_def Let_def index_of_zero)

lemma cut_straight:
  "cut [(0, 0), (250, 0)] 100 lines =
     Inr (Some (lines @ [[(0, 0), (100, 0)], [(100, 0), (200, 0)], [(200, 0), (250, 0)]]),
          lines @ [[(0, 0), (100, 0)], [(100, 0), (200, 0)], [(200, 0), (250, 0)]])"
  by (simp add: cut.simps geometry_eval)

text \<open>
  C7. When \<^verbatim>\<open>distance <= 0\<close> or \<^verbatim>\<open>distance >= line.length\<close>, \<^verbatim>\<open>cut\<close> returns the
  one-element list holding the line, with its coordinates unchanged, whatever
  \<^verbatim>\<open>lines\<close> holds, and leaves \<^verbatim>\<open>lines\<close> as it was.
\<close>

theorem cut_returns_line_unchanged:
  "distance \<le> 0 \<or> line_length line \<le> distance \<Longrightarrow>
   cut line distance lines = Inr (Some [line], lines)"
  by (simp add: cut.simps)

theorem cut_returns_line_unchanged_witness:
  "cut [(0, 0), (250, 0)] 250 [] = Inr (Some [[(0, 0), (250, 0)]], [])
   \<and> cut [(0, 0), (250, 0)] 300 [] = Inr (Some [[(0, 0), (250, 0)]], [])
   \<and> cut [(0, 0), (250, 0)] (- 1) [] = Inr (Some [[(0, 0), (250, 0)]], [])"
  using cut_returns_line_unchanged [of 250 "[(0, 0), (250, 0)]" "[]"]
    cut_returns_line_unchanged [of 300 "[(0, 0), (250, 0)]" "[]"]
    cut_returns_line_unchanged [of "- 1" "[(0, 0), (250, 0)]" "[]"]
  by (simp add: seg_length_horizontal)

text \<open>
  C8. The straight line from \<open>(0, 0)\<close> to \<open>(250, 0)\<close>, cut every 100 into an empty list
  \<^verbatim>\<open>lines\<close>, gives three segments, from 0 to 100, from 100 to 200 and from 200 to 250,
  of lengths 100, 100 and 50 in that order.
\<close>

theorem cut_straight_250:
  "cut [(0, 0), (250, 0)] 100 [] =
     Inr (Some [[(0, 0), (100, 0)], [(100, 0), (200, 0)], [(200, 0), (250, 0)]],
          [[(0, 0), (100, 0)], [(100, 0), (200, 0)], [(200, 0), (250, 0)]])
   \<and> map line_length [[(0, 0), (100, 0)], [(100, 0), (200, 0)], [(200, 0), (250, 0)]]
       = [100, 100, 50]"
  by (simp add: cut_straight seg_length_horizontal)

text \<open>
  C1, as stated, fails: a cut at an interpolated point puts that point into the
  segments. The straight line from \<open>(0, 0)\<close> to \<open>(250, 0)\<close> has two coordinates; its
  three segments for the distance 100, joined with shared end points, have the four
  coordinates \<open>(0, 0)\<close>, \<open>(100, 0)\<close>, \<open>(200, 0)\<close>, \<open>(250, 0)\<close>.
\<close>

theorem cut_inserts_cut_points_counterexample:
  "2 \<le> length [(0 :: real, 0 :: real), (250, 0)] \<and> (0 :: real) < 100
   \<and> 100 < line_length [(0, 0), (250, 0)]
   \<and> cut [(0, 0), (250, 0)] 100 [] =
       Inr (Some [[(0, 0), (100, 0)], [(100, 0), (200, 0)], [(200, 0), (250, 0)]],
            [[(0, 0), (100, 0)], [(100, 0), (200, 0)], [(200, 0), (250, 0)]])
   \<and> join_shared [[(0, 0), (100, 0)], [(100, 0), (200, 0)], [(200, 0), (250, 0)]]
       = [(0, 0), (100, 0), (200, 0), (250, 0)]
   \<and> join_shared [[(0, 0), (100, 0)], [(100, 0), (200, 0)], [(200, 0), (250, 0)]]
       \<noteq> [(0, 0), (250, 0)]"
  by (simp add: cut_straight seg_length_horizontal)

lemma find_vertex_Exact:
  "find_vertex line distance k ps = Some (Exact i) \<Longrightarrow> k \<le> i \<and> i - k < length ps"
proof (induction ps arbitrary: k)
  case Nil
  then show ?case by simp
next
  case (Cons p ps)
  show ?case
  proof (cases "project line p = distance \<or> distance < project line p")
    case True
    with Cons.prems show ?thesis by (auto simp: Let_def split: if_splits)
  next
    case False
    with Cons.prems have "find_vertex line distance (Suc k) ps = Some (Exact i)"
      by (simp add: Let_def)
    from Cons.IH [OF this] show ?thesis by auto
  qed
qed

lemma two_coords:
  "distance < line_length line \<Longrightarrow> 0 < distance \<Longrightarrow> \<exists>a b cs. line = a # b # cs"
  by (cases line rule: line_length.cases) auto

lemma find_vertex_skips_first:
  assumes "0 < distance"
  shows "find_vertex (a # b # cs) distance 0 (a # b # cs)
    = find_vertex (a # b # cs) distance (Suc 0) (b # cs)"
proof -
  have "project (a # b # cs) a = 0"
    by (rule project_first)
  then show ?thesis
    using assms find_vertex.simps(2) [of "a # b # cs" distance 0 a "b # cs"]
    by (simp add: Let_def)
qed

lemma find_vertex_Beyond_pos:
  assumes "0 < distance" and "distance < line_length line"
    and "find_vertex line distance 0 line = Some (Beyond i)"
  shows "0 < i" and "i < length line"
proof -
  obtain a b cs where line: "line = a # b # cs"
    using two_coords [OF assms(2) assms(1)] by blast
  have "find_vertex line distance (Suc 0) (b # cs) = Some (Beyond i)"
    using find_vertex_skips_first [OF assms(1), of a b cs] line assms(3) by simp
  from find_vertex_Beyond [OF this] show "0 < i" by simp
  from find_vertex_Beyond [OF assms(3)] show "i < length line" by simp
qed

lemma cut_at_vertex:
  assumes "0 < distance" and "distance < line_length line"
    and "find_vertex line distance 0 line = Some (Exact i)" and "Suc i < length line"
  shows "cut line distance lines = Inr (Some [take (Suc i) line, drop i line], lines)"
proof -
  obtain a b cs where line: "line = a # b # cs"
    using two_coords [OF assms(2) assms(1)] by blast
  have "find_vertex line distance (Suc 0) (b # cs) = Some (Exact i)"
    using find_vertex_skips_first [OF assms(1), of a b cs] line assms(3) by simp
  from find_vertex_Exact [OF this] have "Suc 0 \<le> i" by simp
  then show ?thesis
    using assms by (auto simp: cut.simps [of line distance] LineString_def)
qed

lemma inserted_none: "inserted [] xs xs"
  by (induction xs) auto

lemma inserted_keep: "inserted ps xs ys \<Longrightarrow> inserted ps (x # xs) (x # ys)"
  by simp

lemma inserted_new: "inserted ps xs ys \<Longrightarrow> inserted (p # ps) xs (p # ys)"
  by simp

lemma inserted_prefix: "inserted ps xs ys \<Longrightarrow> inserted ps (pre @ xs) (pre @ ys)"
  by (induction pre) auto

lemma take_hd_tl: "0 < i \<Longrightarrow> i < length line \<Longrightarrow> take i line = hd line # tl (take i line)"
  by (cases line) (auto simp: gr0_conv_Suc)

lemma tl_take_drop:
  "0 < i \<Longrightarrow> i < length line \<Longrightarrow> tl line = tl (take i line) @ drop i line"
  by (cases line) (auto simp: gr0_conv_Suc)

lemma cut_interpolated:
  assumes "interpolated line distance" and "0 < distance" and "distance < line_length line"
  shows "\<exists>s ss joined. cut line distance acc = Inr (Some (acc @ s # ss), acc @ s # ss)
     \<and> ss \<noteq> [] \<and> 2 \<le> length s \<and> hd s = hd line
     \<and> chained (s # ss)
     \<and> cut_at_distance distance line (s # ss)
     \<and> join_shared (s # ss) = hd line # joined
     \<and> inserted (map hd ss) (tl line) joined"
  using assms
proof (induction arbitrary: acc rule: interpolated.induct)
  case (final line distance i)
  let ?cp = "interpolate line distance"
  let ?seg = "take i line @ [?cp]"
  let ?rest = "?cp # drop i line"
  have i: "0 < i" "i < length line"
    using find_vertex_Beyond_pos [OF final(3) final(4) final(1)] by simp_all
  have c: "cut line distance acc = Inr (Some (acc @ [?seg, ?rest]), acc @ [?seg, ?rest])"
    using final i by (auto simp: cut.simps [of line distance] LineString_def Let_def)
  have tk: "take i line = hd line # tl (take i line)"
    using i by (rule take_hd_tl)
  have ln: "tl line = tl (take i line) @ drop i line"
    using i by (rule tl_take_drop)
  have "join_shared [?seg, ?rest] = take i line @ ?cp # drop i line"
    by simp
  also have "\<dots> = hd line # (tl (take i line) @ ?cp # drop i line)"
    using tk by (metis append_Cons)
  finally have j: "join_shared [?seg, ?rest] = hd line # (tl (take i line) @ ?cp # drop i line)" .
  have "inserted [?cp] (tl (take i line) @ drop i line) (tl (take i line) @ ?cp # drop i line)"
    by (intro inserted_prefix inserted_new inserted_none)
  then have ins: "inserted (map hd [?rest]) (tl line) (tl (take i line) @ ?cp # drop i line)"
    using ln by simp
  have hs: "hd ?seg = hd line"
    using tk by (metis append_Cons list.sel(1))
  have cd: "cut_at_distance distance line [?seg, ?rest]"
    using final(1) i by (simp add: min_def)
  show ?case
    using c i j ins hs cd by (intro exI [of _ ?seg] exI [of _ "[?rest]"] exI) (auto simp: min_def)
next
  case (again line distance i)
  let ?cp = "interpolate line distance"
  let ?seg = "take i line @ [?cp]"
  let ?rest = "?cp # drop i line"
  have i: "0 < i" "i < length line"
    using find_vertex_Beyond_pos [OF again(5) again(6) again(1)] by simp_all
  obtain s ss joined where rec: "cut ?rest distance (acc @ [?seg]) =
        Inr (Some ((acc @ [?seg]) @ s # ss), (acc @ [?seg]) @ s # ss)"
      and ss: "ss \<noteq> []" and s: "2 \<le> length s" and hs: "hd s = hd ?rest"
      and ch: "chained (s # ss)" and cd: "cut_at_distance distance ?rest (s # ss)"
      and j: "join_shared (s # ss) = hd ?rest # joined"
      and ins: "inserted (map hd ss) (tl ?rest) joined"
    using again.IH [OF again(5) again(2), of "acc @ [?seg]"] by blast
  have c: "cut line distance acc = Inr (Some (acc @ ?seg # s # ss), acc @ ?seg # s # ss)"
    using again(1,2,5,6) i rec
    by (auto simp: cut.simps [of line distance] LineString_def Let_def)
  have tk: "take i line = hd line # tl (take i line)"
    using i by (rule take_hd_tl)
  have ln: "tl line = tl (take i line) @ drop i line"
    using i by (rule tl_take_drop)
  have sne: "s \<noteq> []" using s by auto
  have j': "join_shared (?seg # s # ss) = hd line # (tl (take i line) @ ?cp # joined)"
  proof -
    have "join_shared (?seg # s # ss) = ?seg @ tl (join_shared (s # ss))" by simp
    also have "\<dots> = take i line @ ?cp # joined" using j by simp
    also have "\<dots> = hd line # (tl (take i line) @ ?cp # joined)"
      using tk by (metis append_Cons)
    finally show ?thesis .
  qed
  have "inserted (?cp # map hd ss) (tl (take i line) @ drop i line)
          (tl (take i line) @ ?cp # joined)"
    using ins by (intro inserted_prefix inserted_new) simp
  then have ins': "inserted (map hd (s # ss)) (tl line) (tl (take i line) @ ?cp # joined)"
    using ln hs by simp
  have hseg: "hd ?seg = hd line"
    using tk by (metis append_Cons list.sel(1))
  have ch': "chained (?seg # s # ss)"
    using ch sne hs by simp
  have cd': "cut_at_distance distance line (?seg # s # ss)"
    using cd hs i again(1) by (simp add: min_def)
  show ?case
    using c i j' ins' hseg ch' cd'
    by (intro exI [of _ ?seg] exI [of _ "s # ss"] exI) auto
qed

text \<open>
  C1, amended, for \<open>0 < distance < line.length\<close> (so the line has at least two
  coordinates). When the loop stops at a vertex \<open>i\<close> whose projection equals the
  distance, and \<open>i\<close> is not the last vertex, \<^verbatim>\<open>cut\<close> returns the two segments
  \<^verbatim>\<open>coords[:i+1]\<close> and \<^verbatim>\<open>coords[i:]\<close>, and joining them with the shared end point
  gives back the coordinates of the line exactly. When instead every cut is made at an
  interpolated point, \<^verbatim>\<open>cut\<close>, called with an empty \<^verbatim>\<open>lines\<close>, returns at least two
  segments; consecutive segments share an end point; each shared end point is the
  point at arc length \<open>distance\<close> along the line that remained to be cut, put before
  the first vertex of that line whose projection exceeds the distance; and the
  segments joined with shared end points are the coordinates of the line with exactly
  these points inserted.
\<close>

theorem cut_join_shared:
  assumes "0 < distance" and "distance < line_length line"
  shows "(find_vertex line distance 0 line = Some (Exact i) \<and> Suc i < length line \<longrightarrow>
            cut line distance lines = Inr (Some [take (Suc i) line, drop i line], lines)
            \<and> join_shared [take (Suc i) line, drop i line] = line)
       \<and> (interpolated line distance \<longrightarrow>
            (\<exists>segments. cut line distance [] = Inr (Some segments, segments)
               \<and> 2 \<le> length segments
               \<and> chained segments
               \<and> cut_at_distance distance line segments
               \<and> inserted (map hd (tl segments)) line (join_shared segments)))"
proof (intro conjI impI)
  assume h: "find_vertex line distance 0 line = Some (Exact i) \<and> Suc i < length line"
  then show "cut line distance lines = Inr (Some [take (Suc i) line, drop i line], lines)"
    using cut_at_vertex [OF assms] by simp
  show "join_shared [take (Suc i) line, drop i line] = line"
    by (simp add: drop_Suc [symmetric] tl_drop)
next
  assume "interpolated line distance"
  from cut_interpolated [OF this assms, of "[]"]
  obtain s ss joined where c: "cut line distance [] = Inr (Some (s # ss), s # ss)"
    and ss: "ss \<noteq> []" and ch: "chained (s # ss)"
    and cd: "cut_at_distance distance line (s # ss)"
    and j: "join_shared (s # ss) = hd line # joined"
    and ins: "inserted (map hd ss) (tl line) joined"
    by auto
  obtain a b cs where line: "line = a # b # cs"
    using two_coords [OF assms(2) assms(1)] by blast
  have "inserted (map hd ss) (hd line # tl line) (hd line # joined)"
    using ins by (rule inserted_keep)
  then have "inserted (map hd (tl (s # ss))) line (join_shared (s # ss))"
    using j line by simp
  moreover have "2 \<le> length (s # ss)"
    using ss by (cases ss) auto
  ultimately show "\<exists>segments. cut line distance [] = Inr (Some segments, segments)
               \<and> 2 \<le> length segments
               \<and> chained segments
               \<and> cut_at_distance distance line segments
               \<and> inserted (map hd (tl segments)) line (join_shared segments)"
    using c ch cd by blast
qed

lemma cut_at_vertex_example:
  "find_vertex [(0, 0), (100, 0), (250, 0)] 100 0 [(0, 0), (100, 0), (250, 0)] = Some (Exact 1)
   \<and> line_length [(0, 0), (100, 0), (250, 0)] = 250"
  by (simp add: geometry_eval)

lemma interpolated_example: "interpolated [(0, 0), (250, 0)] 100"
proof (rule interpolated.again [where i = 1])
  show "find_vertex [(0, 0), (250, 0)] 100 0 [(0, 0), (250, 0)] = Some (Beyond 1)"
    by (simp add: geometry_eval)
  show "100 < line_length (interpolate [(0, 0), (250, 0)] 100 # drop 1 [(0, 0), (250, 0)])"
    by (simp add: geometry_eval)
  have "interpolated [(100, 0), (250, 0)] 100"
    by (rule interpolated.final [where i = 1]) (simp_all add: geometry_eval)
  then show "interpolated (interpolate [(0, 0), (250, 0)] 100 # drop 1 [(0, 0), (250, 0)]) 100"
    by (simp add: geometry_eval)
qed

theorem cut_join_shared_witness:
  "cut [(0, 0), (100, 0), (250, 0)] 100 [] =
     Inr (Some [[(0, 0), (100, 0)], [(100, 0), (250, 0)]], [])
   \<and> join_shared [[(0, 0), (100, 0)], [(100, 0), (250, 0)]] = [(0, 0), (100, 0), (250, 0)]
   \<and> cut [(0, 0), (250, 0)] 100 [] =
     Inr (Some [[(0, 0), (100, 0)], [(100, 0), (200, 0)], [(200, 0), (250, 0)]],
          [[(0, 0), (100, 0)], [(100, 0), (200, 0)], [(200, 0), (250, 0)]])
   \<and> chained [[(0, 0), (100, 0)], [(100, 0), (200, 0)], [(200, 0), (250, 0)]]
   \<and> cut_at_distance 100 [(0, 0), (250, 0)]
       [[(0, 0), (100, 0)], [(100, 0), (200, 0)], [(200, 0), (250, 0)]]
   \<and> join_shared [[(0, 0), (100, 0)], [(100, 0), (200, 0)], [(200, 0), (250, 0)]]
       = [(0, 0), (100, 0), (200, 0), (250, 0)]
   \<and> inserted [(100, 0), (200, 0)] [(0, 0), (250, 0)] [(0, 0), (100, 0), (200, 0), (250, 0)]"
  using cut_join_shared [of 100 "[(0, 0), (100, 0), (250, 0)]" 1 "[]"]
    cut_join_shared [of 100 "[(0, 0), (250, 0)]" 1 "[]"]
    cut_at_vertex_example interpolated_example
  by (simp add: cut_straight geometry_eval)

text \<open>
  The case C1 leaves out: when the remainder is cut again and the inner call stops at
  a vertex, the two segments it returns are dropped with its value, and only the
  segments appended before are returned.
\<close>

lemma cut_discards_vertex_split:
  "cut [(0, 0), (200, 0), (300, 0)] 100 [] =
     Inr (Some [[(0, 0), (100, 0)]], [[(0, 0), (100, 0)]])"
  by (simp add: cut.simps geometry_eval)

text \<open>
  C4, as stated, fails: what \<^verbatim>\<open>cut\<close> returns depends on the list \<^verbatim>\<open>lines\<close> it is
  given, and the list is changed. With an empty list the straight line gives its three
  segments; with a list that holds a line already, that line comes first in the value
  returned.
\<close>

theorem cut_depends_on_lines_counterexample:
  "cut [(0, 0), (250, 0)] 100 [] =
     Inr (Some [[(0, 0), (100, 0)], [(100, 0), (200, 0)], [(200, 0), (250, 0)]],
          [[(0, 0), (100, 0)], [(100, 0), (200, 0)], [(200, 0), (250, 0)]])
   \<and> cut [(0, 0), (250, 0)] 100 [[(7, 7), (8, 8)]] =
     Inr (Some [[(7, 7), (8, 8)], [(0, 0), (100, 0)], [(100, 0), (200, 0)], [(200, 0), (250, 0)]],
          [[(7, 7), (8, 8)], [(0, 0), (100, 0)], [(100, 0), (200, 0)], [(200, 0), (250, 0)]])
   \<and> cut [(0, 0), (250, 0)] 100 [] \<noteq> cut [(0, 0), (250, 0)] 100 [[(7, 7), (8, 8)]]"
  by (simp add: cut_straight)

lemma cut_accumulator_all:
  fixes lines0 :: "coord list list"
  shows "\<forall>acc. cut line distance acc =
     (case cut line distance [] of
        Inl e \<Rightarrow> Inl e
      | Inr (ret, ls) \<Rightarrow> Inr (if ls = [] then ret else map_option ((@) acc) ret, acc @ ls))"
proof (induction line distance lines0 rule: cut.induct)
  case (1 line distance lines)
  show ?case
  proof
    fix acc
    show "cut line distance acc =
      (case cut line distance [] of
         Inl e \<Rightarrow> Inl e
       | Inr (ret, ls) \<Rightarrow> Inr (if ls = [] then ret else map_option ((@) acc) ret, acc @ ls))"
    proof (cases "distance \<le> 0 \<or> line_length line \<le> distance")
      case True
      then show ?thesis by (simp add: cut.simps)
    next
      case guard: False
      show ?thesis
      proof (cases "find_vertex line distance 0 line")
        case None
        with guard show ?thesis by (simp add: cut.simps)
      next
        case (Some h)
        show ?thesis
        proof (cases h)
          case (Exact i)
          with guard Some show ?thesis
            by (simp add: cut.simps split: sum.splits)
        next
          case (Beyond i)
          define cp where "cp = interpolate line distance"
          show ?thesis
          proof (cases "LineString (take i line @ [cp])")
            case (Inl e)
            with guard Some Beyond show ?thesis
              by (simp add: cut.simps [of line distance] cp_def)
          next
            case seg: (Inr seg)
            show ?thesis
            proof (cases "LineString (cp # drop i line)")
              case (Inl e)
              with guard Some Beyond seg show ?thesis
                by (simp add: cut.simps [of line distance] cp_def)
            next
              case rest: (Inr rest)
              show ?thesis
              proof (cases "distance < line_length rest")
                case False
                with guard Some Beyond seg rest show ?thesis
                  by (simp add: cut.simps [of line distance] cp_def)
              next
                case True
                have IH: "\<forall>acc. cut rest distance acc =
                  (case cut rest distance [] of
                     Inl e \<Rightarrow> Inl e
                   | Inr (ret, ls) \<Rightarrow>
                       Inr (if ls = [] then ret else map_option ((@) acc) ret, acc @ ls))"
                  using "1.IH" [OF guard Some Beyond cp_def] seg rest True
                  by (simp add: cp_def)
                have a: "cut line distance acc =
                  (case cut rest distance (acc @ [seg]) of
                     Inl e \<Rightarrow> Inl e
                   | Inr (r, lines') \<Rightarrow> Inr (Some lines', lines'))"
                  using guard Some Beyond seg rest True
                  by (simp add: cut.simps [of line distance] cp_def)
                have b: "cut line distance [] =
                  (case cut rest distance [seg] of
                     Inl e \<Rightarrow> Inl e
                   | Inr (r, lines') \<Rightarrow> Inr (Some lines', lines'))"
                  using guard Some Beyond seg rest True
                  by (simp add: cut.simps [of line distance] cp_def)
                show ?thesis
                  unfolding a b IH [rule_format, of "acc @ [seg]"] IH [rule_format, of "[seg]"]
                  by (simp split: sum.splits prod.splits)
              qed
            qed
          qed
        qed
      qed
    qed
  qed
qed

text \<open>
  C4, amended. \<^verbatim>\<open>cut\<close> is a function of the line, the distance and what the list
  \<^verbatim>\<open>lines\<close> holds when it is called, and of nothing else; the list enters only as a
  prefix. The call with \<^verbatim>\<open>lines\<close> fails exactly when the call with an empty list
  fails; otherwise it leaves in \<^verbatim>\<open>lines\<close> the old content followed by what the call
  with an empty list leaves. When that call appends nothing (the line is returned
  whole, the split is at a vertex, or the loop ends without a return) the value
  returned is the same and \<^verbatim>\<open>lines\<close> is unchanged; when it appends segments, the
  value returned is the list \<^verbatim>\<open>lines\<close> itself, the old content first.
\<close>

theorem cut_accumulator:
  "cut line distance lines =
     (case cut line distance [] of
        Inl e \<Rightarrow> Inl e
      | Inr (ret, ls) \<Rightarrow>
          Inr (if ls = [] then ret else map_option ((@) lines) ret, lines @ ls))
   \<and> (case cut line distance [] of
         Inl e \<Rightarrow> True
       | Inr (ret, ls) \<Rightarrow> ls = [] \<or> ret = Some ls)"
proof
  show "cut line distance lines =
     (case cut line distance [] of
        Inl e \<Rightarrow> Inl e
      | Inr (ret, ls) \<Rightarrow>
          Inr (if ls = [] then ret else map_option ((@) lines) ret, lines @ ls))"
    by (rule cut_accumulator_all [rule_format])
  show "case cut line distance [] of
         Inl e \<Rightarrow> True
       | Inr (ret, ls) \<Rightarrow> ls = [] \<or> ret = Some ls"
    by (auto simp: cut.simps [of line distance "[]"] Let_def
        split: if_splits option.splits hit.splits sum.splits prod.splits)
qed

text \<open>
  C9. The claim is that for \<open>0 < distance < line.length\<close> the loop always reaches a
  vertex whose projection is at least the distance. On the closed square ring below,
  of length 40, the vertices project to 0, 10, 20, 30 and, for the last vertex, which
  is the first one again, to 0: with the distance 35 the loop ends without a return
  and \<^verbatim>\<open>cut\<close> returns \<^verbatim>\<open>None\<close>.
\<close>

theorem cut_ring_falls_through:
  "(0 :: real) < 35 \<and> 35 < line_length [(0, 0), (10, 0), (10, 10), (0, 10), (0, 0)]
   \<and> map (project [(0, 0), (10, 0), (10, 10), (0, 10), (0, 0)])
        [(0, 0), (10, 0), (10, 10), (0, 10), (0, 0)] = [0, 10, 20, 30, 0]
   \<and> find_vertex [(0, 0), (10, 0), (10, 10), (0, 10), (0, 0)] 35 0
        [(0, 0), (10, 0), (10, 10), (0, 10), (0, 0)] = None
   \<and> cut [(0, 0), (10, 0), (10, 10), (0, 10), (0, 0)] 35 [] = Inr (None, [])"
  by (simp add: cut.simps geometry_eval)

text \<open>
  Where the last vertex does project to the length of the line, as on a line that
  does not meet itself, the loop reaches a vertex and \<^verbatim>\<open>cut\<close> does not return
  \<^verbatim>\<open>None\<close>.
\<close>

lemma find_vertex_reaches:
  "ps \<noteq> [] \<Longrightarrow> distance \<le> project line (last ps) \<Longrightarrow>
   find_vertex line distance k ps \<noteq> None"
proof (induction ps arbitrary: k)
  case Nil
  then show ?case by simp
next
  case (Cons p ps)
  show ?case
  proof (cases "ps = []")
    case True
    with Cons.prems show ?thesis by (auto simp: Let_def)
  next
    case False
    with Cons.prems have "find_vertex line distance (Suc k) ps \<noteq> None"
      by (intro Cons.IH) simp_all
    then show ?thesis by (simp add: Let_def)
  qed
qed

lemma cut_reaches_vertex:
  assumes "0 < distance" and "distance < line_length line"
    and "project line (last line) = line_length line"
  shows "find_vertex line distance 0 line \<noteq> None"
    and "cut line distance lines \<noteq> Inr (None, lines')"
proof -
  have "line \<noteq> []" using assms by auto
  then show *: "find_vertex line distance 0 line \<noteq> None"
    using assms by (intro find_vertex_reaches) simp_all
  then show "cut line distance lines \<noteq> Inr (None, lines')"
    using assms
    by (auto simp: cut.simps [of line distance lines] Let_def
        split: hit.splits sum.splits prod.splits if_splits)
qed

end
